theory Spec2Isabelle
  imports Complex_Main "HOL-Library.Monad_Syntax" "HOL-Library.Sublist"
begin

section \<open>Python values and errors\<close>

text \<open>
  The exceptions of Python that the modelled code can raise. A function that can raise
  returns \<open>error + 'a\<close>, with \<open>Inl\<close> for the exception.
\<close>

datatype error = KeyError | IndexError | TypeError | ZeroDivisionError

text \<open>
  The values \<open>json.loads\<close> can put into the config dictionary. Python's \<open>float\<close> is
  represented by \<open>real\<close> (no rounding, no NaN); \<open>bool\<close> is a subclass of \<open>int\<close> in Python
  and takes part in arithmetic as 0 or 1.
\<close>

datatype pyval =
    PInt int
  | PFloat real
  | PBool bool
  | PStr string
  | PNone
  | PList "pyval list"
  | PDict "(string \<times> pyval) list"

datatype pynum = NInt int | NFloat real

fun as_num :: "pyval \<Rightarrow> pynum option" where
  "as_num (PInt i) = Some (NInt i)"
| "as_num (PBool b) = Some (NInt (if b then 1 else 0))"
| "as_num (PFloat r) = Some (NFloat r)"
| "as_num _ = None"

fun num_real :: "pynum \<Rightarrow> real" where
  "num_real (NInt i) = real_of_int i"
| "num_real (NFloat r) = r"

text \<open>Python's \<open>a // b\<close>: floor division, on two ints an int, with a float a float.\<close>

definition py_floordiv :: "pyval \<Rightarrow> pyval \<Rightarrow> error + pyval" where
  "py_floordiv a b =
     (case (as_num a, as_num b) of
        (Some (NInt i), Some (NInt j)) \<Rightarrow>
          if j = 0 then Inl ZeroDivisionError else Inr (PInt (i div j))
      | (Some x, Some y) \<Rightarrow>
          if num_real y = 0 then Inl ZeroDivisionError
          else Inr (PFloat (real_of_int \<lfloor>num_real x / num_real y\<rfloor>))
      | _ \<Rightarrow> Inl TypeError)"

text \<open>Python's \<open>a < 0\<close>: defined on numbers, a \<open>TypeError\<close> on everything else.\<close>

definition py_negative :: "pyval \<Rightarrow> error + bool" where
  "py_negative a =
     (case as_num a of
        Some (NInt i) \<Rightarrow> Inr (i < 0)
      | Some (NFloat r) \<Rightarrow> Inr (r < 0)
      | None \<Rightarrow> Inl TypeError)"

text \<open>Sequencing of computations that can raise.\<close>

definition and_then :: "error + 'a \<Rightarrow> ('a \<Rightarrow> error + 'b) \<Rightarrow> error + 'b" where
  "and_then m f = (case m of Inl e \<Rightarrow> Inl e | Inr v \<Rightarrow> f v)"

section \<open>The loader: \<open>sanitize_config\<close>\<close>

text \<open>
  An array is represented by its shape where only the shape is read. \<open>weights\<close> is the
  dictionary returned by \<open>mx.load\<close>, as a map from tensor names to shapes.
\<close>

type_synonym shape = "nat list"
type_synonym config = "string \<rightharpoonup> pyval"

text \<open>\<open>weights[name].shape[0]\<close> and \<open>weights[name].shape[-1]\<close>.\<close>

definition weight_dim_first :: "(string \<rightharpoonup> shape) \<Rightarrow> string \<Rightarrow> error + pyval" where
  "weight_dim_first weights name =
     (case weights name of
        None \<Rightarrow> Inl KeyError
      | Some [] \<Rightarrow> Inl IndexError
      | Some (d # ds) \<Rightarrow> Inr (PInt (int d)))"

definition weight_dim_last :: "(string \<rightharpoonup> shape) \<Rightarrow> string \<Rightarrow> error + pyval" where
  "weight_dim_last weights name =
     (case weights name of
        None \<Rightarrow> Inl KeyError
      | Some [] \<Rightarrow> Inl IndexError
      | Some (d # ds) \<Rightarrow> Inr (PInt (int (last (d # ds)))))"

text \<open>
  \<open>sanitize_config(config, weights)\<close>, statement by statement. The dictionary is mutated in
  place by the source and returned; the model returns the new dictionary.
\<close>

definition sanitize_config :: "config \<Rightarrow> (string \<rightharpoonup> shape) \<Rightarrow> error + config" where
  "sanitize_config config weights =
     (let c0 = config(''model_type'' := None) in
      case c0 ''n_heads'' of
        None \<Rightarrow> Inl KeyError
      | Some n_heads \<Rightarrow>
     (let c1 = (if c0 ''n_kv_heads'' = None then c0(''n_kv_heads'' \<mapsto> n_heads) else c0) in
      and_then
        (if c1 ''head_dim'' = None
         then (case c1 ''dim'' of
                 None \<Rightarrow> Inl KeyError
               | Some d \<Rightarrow> and_then (py_floordiv d n_heads) (\<lambda>q. Inr (c1(''head_dim'' \<mapsto> q))))
         else Inr c1)
      (\<lambda>c2. and_then
        (if c2 ''hidden_dim'' = None
         then and_then (weight_dim_first weights ''layers.0.feed_forward.w1.weight'')
                (\<lambda>h. Inr (c2(''hidden_dim'' \<mapsto> h)))
         else Inr c2)
      (\<lambda>c3. and_then
        (and_then (py_negative (case c3 ''vocab_size'' of None \<Rightarrow> PInt (- 1) | Some v \<Rightarrow> v))
           (\<lambda>neg. if neg
                   then and_then (weight_dim_last weights ''output.weight'')
                          (\<lambda>v. Inr (c3(''vocab_size'' \<mapsto> v)))
                   else Inr c3))
      (\<lambda>c4.
        (let c5 = (if c4 ''rope_theta'' = None then c4(''rope_theta'' \<mapsto> PInt 10000) else c4)
         in Inr (c5(''multiple_of'' := None, ''ffn_dim_multiplier'' := None))))))))"

text \<open>
  Two auxiliary notions for stating what \<open>sanitize_config\<close> returns: \<open>default_to c k v\<close> is
  the dictionary after \<open>if k not in c: c[k] = v\<close>, and \<open>sanitized\<close> is the dictionary after
  all statements of \<open>sanitize_config\<close> have run without raising.
\<close>

definition default_to :: "config \<Rightarrow> string \<Rightarrow> pyval \<Rightarrow> config" where
  "default_to c k v = (if c k = None then c(k \<mapsto> v) else c)"

definition sanitized :: "config \<Rightarrow> pyval \<Rightarrow> pyval \<Rightarrow> pyval \<Rightarrow> bool \<Rightarrow> pyval \<Rightarrow> config" where
  "sanitized config n_heads q h b w =
     (default_to
        (if b
         then (default_to
                 (default_to
                    (default_to (config(''model_type'' := None)) ''n_kv_heads'' n_heads)
                    ''head_dim'' q)
                 ''hidden_dim'' h)(''vocab_size'' \<mapsto> w)
         else default_to
                 (default_to
                    (default_to (config(''model_type'' := None)) ''n_kv_heads'' n_heads)
                    ''head_dim'' q)
                 ''hidden_dim'' h)
        ''rope_theta'' (PInt 10000))
     (''multiple_of'' := None, ''ffn_dim_multiplier'' := None)"


text \<open>A config and weight shapes of the kind the converter writes for Llama-2 7B.\<close>

definition example_config :: config where
  "example_config = map_of
     [(''dim'', PInt 4096), (''multiple_of'', PInt 256), (''n_heads'', PInt 32),
      (''n_layers'', PInt 32), (''norm_eps'', PFloat (1 / 100000)), (''vocab_size'', PInt (- 1)),
      (''model_type'', PStr ''llama'')]"

definition example_weights :: "string \<rightharpoonup> shape" where
  "example_weights = map_of
     [(''layers.0.feed_forward.w1.weight'', [11008, 4096]), (''output.weight'', [32000, 4096])]"


section \<open>The decoder's generation sequence\<close>

text \<open>
  \<open>Llama.generate\<close> with the numeric kernels left open. The embedding, the transformer
  blocks, the final normalisation, the output projection, the arg-max and the categorical
  sampler are calls into the array library; they are the fields of the record below, total
  functions on array types \<open>'a\<close> (hidden states), \<open>'c\<close> (one layer's cache entry, the pair of
  keys and values) and \<open>'l\<close> (logits). The driver runs a batch of one, so the array of token
  ids \<open>x\<close> is the list of its ids and the sampled array \<open>y\<close> is its single id.

  A block is called as \<open>l(x, mask, cache)\<close>. The causal mask built from \<open>x.shape[1]\<close> is
  given by that length, \<open>None\<close> is Python's \<open>None\<close>. \<open>output_last h\<close> is
  \<open>self.output(x[:, -1])\<close>. \<open>categorical logits s rng\<close> is
  \<open>mx.random.categorical(logits * s)\<close>, which reads and advances the global random state
  \<open>rng\<close>.
\<close>

record ('a, 'c, 'l, 'r) Llama =
  tok_embeddings :: "int list \<Rightarrow> 'a"
  layers :: "('a \<Rightarrow> nat option \<Rightarrow> 'c option \<Rightarrow> 'a \<times> 'c) list"
  final_norm :: "'a \<Rightarrow> 'a"
  output_last :: "'a \<Rightarrow> 'l"
  argmax :: "'l \<Rightarrow> int"
  categorical :: "'l \<Rightarrow> real \<Rightarrow> 'r \<Rightarrow> int \<times> 'r"

text \<open>The inner function \<open>sample\<close> of \<open>Llama.generate\<close>.\<close>

definition sample :: "('a, 'c, 'l, 'r) Llama \<Rightarrow> real \<Rightarrow> 'l \<Rightarrow> 'r \<Rightarrow> int \<times> 'r" where
  "sample M temp logits rng =
     (if temp = 0 then (argmax M logits, rng) else categorical M logits (1 / temp) rng)"

text \<open>
  The prompt loop \<open>for l in self.layers: x, c = l(x, mask=mask); cache.append(c)\<close>.
\<close>

fun prompt_layers ::
  "('a \<Rightarrow> nat option \<Rightarrow> 'c option \<Rightarrow> 'a \<times> 'c) list \<Rightarrow> 'a \<Rightarrow> nat option \<Rightarrow> 'c list \<Rightarrow> 'a \<times> 'c list"
where
  "prompt_layers [] x msk cache = (x, cache)"
| "prompt_layers (l # ls) x msk cache =
     (case l x msk None of (x', c) \<Rightarrow> prompt_layers ls x' msk (cache @ [c]))"

text \<open>
  The decode loop
  \<open>for i in range(len(cache)): x, cache[i] = self.layers[i](x, mask=None, cache=cache[i])\<close>.
  The cache has one entry per layer, so \<open>self.layers[i]\<close> is always in range.
\<close>

definition decode_layers ::
  "('a \<Rightarrow> nat option \<Rightarrow> 'c option \<Rightarrow> 'a \<times> 'c) list \<Rightarrow> 'a \<Rightarrow> 'c list \<Rightarrow> 'a \<times> 'c list"
where
  "decode_layers ls x cache =
     fold (\<lambda>i (x, cache). case (ls ! i) x None (Some (cache ! i)) of
                             (x', c) \<Rightarrow> (x', cache[i := c]))
       [0..<length cache] (x, cache)"

text \<open>
  The body of \<open>Llama.generate\<close> up to the first \<open>yield y\<close> (prompt ingestion): the whole
  input \<open>x\<close> goes through the network with the causal mask and no caches, and the token is
  sampled from the logits of the last position. The result is the token, the cache list
  and the random state.
\<close>

definition ingest_prompt ::
  "('a, 'c, 'l, 'r) Llama \<Rightarrow> real \<Rightarrow> int list \<Rightarrow> 'r \<Rightarrow> int \<times> 'c list \<times> 'r"
where
  "ingest_prompt M temp x rng =
     (let msk = Some (length x);
          h = tok_embeddings M x
      in case prompt_layers (layers M) h msk [] of (h, cache) \<Rightarrow>
         case sample M temp (output_last M (final_norm M h)) rng of (y, rng') \<Rightarrow>
           (y, cache, rng'))"

text \<open>
  One pass of the \<open>while True\<close> loop, from \<open>x = y[:, None]\<close> to \<open>yield y\<close> (a decode step):
  only the token \<open>y\<close> goes through the network, with no mask and every layer's cache.
\<close>

definition decode_step ::
  "('a, 'c, 'l, 'r) Llama \<Rightarrow> real \<Rightarrow> 'c list \<Rightarrow> int \<Rightarrow> 'r \<Rightarrow> int \<times> 'c list \<times> 'r"
where
  "decode_step M temp cache y rng =
     (let h = tok_embeddings M [y]
      in case decode_layers (layers M) h cache of (h, cache') \<Rightarrow>
         case sample M temp (output_last M (final_norm M h)) rng of (y', rng') \<Rightarrow>
           (y', cache', rng'))"

text \<open>
  A Python generator object: created by \<open>model.generate(x, temp)\<close> without running any of
  the body (\<open>Unstarted\<close>, holding the argument \<open>x\<close>), and afterwards suspended at one of the
  two \<open>yield y\<close> statements (\<open>Suspended\<close>, holding the local variables \<open>cache\<close> and \<open>y\<close>).
  Both states carry the library's random state.
\<close>

datatype ('c, 'r) generator =
    Unstarted "int list" 'r
  | Suspended "'c list" int 'r

text \<open>
  One \<open>next()\<close> on the generator: from \<open>Unstarted\<close> the body runs up to the first
  \<open>yield\<close>, from \<open>Suspended\<close> it runs one pass of the loop up to the second \<open>yield\<close>.
\<close>

definition next_token ::
  "('a, 'c, 'l, 'r) Llama \<Rightarrow> real \<Rightarrow> ('c, 'r) generator \<Rightarrow> int \<times> ('c, 'r) generator"
where
  "next_token M temp g =
     (case g of
        Unstarted x rng \<Rightarrow>
          (case ingest_prompt M temp x rng of (y, cache, rng') \<Rightarrow> (y, Suspended cache y rng'))
      | Suspended cache y rng \<Rightarrow>
          (case decode_step M temp cache y rng of (y', cache', rng') \<Rightarrow>
             (y', Suspended cache' y' rng')))"

text \<open>
  The first \<open>n\<close> tokens of the generation sequence, with the generator as it is left after
  they have been taken.
\<close>

fun take_tokens ::
  "('a, 'c, 'l, 'r) Llama \<Rightarrow> real \<Rightarrow> ('c, 'r) generator \<Rightarrow> nat \<Rightarrow> int list \<times> ('c, 'r) generator"
where
  "take_tokens M temp g 0 = ([], g)"
| "take_tokens M temp g (Suc n) =
     (case next_token M temp g of (y, g') \<Rightarrow>
      case take_tokens M temp g' n of (ys, g'') \<Rightarrow> (y # ys, g''))"

text \<open>The generator with another random state, everything else the same.\<close>

fun with_rng :: "'r \<Rightarrow> ('c, 'r) generator \<Rightarrow> ('c, 'r) generator" where
  "with_rng r (Unstarted x _) = Unstarted x r"
| "with_rng r (Suspended cache y _) = Suspended cache y r"

section \<open>The generation driver\<close>

record ModelStats =
  start_load :: real
  end_load :: real
  start_gen :: real
  end_prompt :: real
  end_gen :: real
  num_tokens_prompt :: int
  num_tokens_response :: int

text \<open>The command-line arguments that \<open>generate\<close> reads.\<close>

record Args =
  prompt :: string
  max_tokens :: int
  write_every :: int
  temp :: real

text \<open>
  The tokenizer (a \<open>SentencePieceProcessor\<close>) is an external codec. A \<open>string\<close> stands for
  a Python \<open>str\<close>, one \<open>char\<close> per code point.
\<close>

record Tokenizer =
  bos_id :: int
  encode :: "string \<Rightarrow> int list"
  decode :: "int list \<Rightarrow> string"

text \<open>
  The local variables of the driver's \<open>generate\<close> together with what it has written:
  \<open>out\<close> lists the first argument of every \<open>print\<close> call so far, in order.
\<close>

record ('c, 'r) driver =
  tokens :: "int list"
  skip :: nat
  out :: "string list"
  gen :: "('c, 'r) generator"
  stats :: ModelStats

text \<open>
  The loop \<open>for token in model.generate(x, args.temp)\<close> from one \<open>next()\<close> on. \<open>clk n\<close> is
  what the \<open>n\<close>-th call of \<open>time.time()\<close> inside \<open>generate\<close> returns (counted from 0); the
  loop makes the call number 2, once. Python's \<open>%\<close> raises on a zero divisor and takes the
  sign of the divisor otherwise, as \<open>mod\<close> on \<open>int\<close> does. The slice \<open>s[skip:]\<close> is
  \<open>drop skip s\<close>, also when \<open>skip\<close> exceeds the length. \<open>mx.eval\<close> only forces the lazy
  computation and has no counterpart here.
\<close>

function driver_loop ::
  "('a, 'c, 'l, 'r) Llama \<Rightarrow> Tokenizer \<Rightarrow> (nat \<Rightarrow> real) \<Rightarrow> Args \<Rightarrow> ('c, 'r) driver
     \<Rightarrow> error + ('c, 'r) driver"
where
  "driver_loop M tk clk args st =
     (case next_token M (temp args) (gen st) of (token, g) \<Rightarrow>
      (let toks = tokens st @ [token];
           st1 = st\<lparr>tokens := toks, gen := g\<rparr>;
           st2 = (if length toks = 1
                  then st1\<lparr>stats := (stats st1)\<lparr>end_prompt := clk 2\<rparr>\<rparr>
                  else st1)
       in if int (length toks) \<ge> max_tokens args then Inr st2
          else if write_every args = 0 then Inl ZeroDivisionError
          else if int (length toks) mod write_every args = 0
          then (let s = decode tk toks
                in driver_loop M tk clk args
                     (st2\<lparr>out := out st2 @ [drop (skip st2) s], skip := length s\<rparr>))
          else driver_loop M tk clk args st2))"
  by pat_completeness auto
termination
  by (relation "measure (\<lambda>(M, tk, clk, args, st). nat (max_tokens args - int (length (tokens st))))")
    (auto split: if_splits)

declare driver_loop.simps [simp del]

text \<open>
  The driver's \<open>generate(args, stats)\<close>, with the globals \<open>model\<close> and \<open>tokenizer\<close> and the
  random state as arguments. It returns its final local state; \<open>stats\<close> is the mutated
  \<open>ModelStats\<close> object.
\<close>

definition generate ::
  "('a, 'c, 'l, 'r) Llama \<Rightarrow> Tokenizer \<Rightarrow> (nat \<Rightarrow> real) \<Rightarrow> 'r \<Rightarrow> Args \<Rightarrow> ModelStats
     \<Rightarrow> error + ('c, 'r) driver"
where
  "generate M tk clk rng args stats0 =
     (let out0 = [''------'', prompt args];
          stats1 = stats0\<lparr>start_gen := clk 0\<rparr>;
          x = bos_id tk # encode tk (prompt args);
          stats2 = stats1\<lparr>num_tokens_prompt := int (length x) - 1\<rparr>;
          stats3 = stats2\<lparr>start_gen := clk 1\<rparr>
      in and_then
           (driver_loop M tk clk args
              \<lparr>tokens = [], skip = 0, out = out0, gen = Unstarted x rng, stats = stats3\<rparr>)
           (\<lambda>st.
              (let stats4 = (stats st)\<lparr>end_gen := clk 3\<rparr>;
                   s = decode tk (tokens st);
                   out1 = out st @ [drop (skip st) s];
                   stats5 = stats4\<lparr>num_tokens_response := int (length (tokens st))\<rparr>
               in Inr (st\<lparr>out := out1 @ [''------''], stats := stats5\<rparr>))))"

text \<open>
  What the \<open>print(s[skip:], ...)\<close> calls have written: \<open>out\<close> without the two header
  lines and the closing line, concatenated.
\<close>

definition printed_text :: "('c, 'r) driver \<Rightarrow> string" where
  "printed_text st = concat (butlast (drop 2 (out st)))"

text \<open>Python's \<open>a / b\<close> on numbers.\<close>

definition py_truediv :: "real \<Rightarrow> real \<Rightarrow> error + real" where
  "py_truediv a b = (if b = 0 then Inl ZeroDivisionError else Inr (a / b))"

text \<open>
  The statistics block at the end of the script: the numbers it formats, in the order
  Python evaluates them, or the exception that the evaluation raises.
\<close>

definition print_statistics :: "ModelStats \<Rightarrow> error + real list" where
  "print_statistics s =
     (let load_ms = (end_load s - start_load s) * 1000;
          prompt_ms = (end_prompt s - start_gen s) * 1000
      in and_then (py_truediv prompt_ms (real_of_int (num_tokens_prompt s))) (\<lambda>prompt_ms_tok.
         and_then (py_truediv (real_of_int (num_tokens_prompt s)) (end_prompt s - start_gen s))
           (\<lambda>prompt_tok_s.
         (let eval_ms = (end_gen s - end_prompt s) * 1000
          in and_then (py_truediv eval_ms (real_of_int (num_tokens_response s))) (\<lambda>eval_ms_tok.
             and_then (py_truediv (real_of_int (num_tokens_response s)) (end_gen s - end_prompt s))
               (\<lambda>eval_tok_s.
             Inr [load_ms, prompt_ms, real_of_int (num_tokens_prompt s), prompt_ms_tok,
                  prompt_tok_s, eval_ms, real_of_int (num_tokens_response s), eval_ms_tok,
                  eval_tok_s]))))))"

text \<open>
  The script after the model is loaded: \<open>generate(args, stats)\<close>, then the statistics.
\<close>

definition main ::
  "('a, 'c, 'l, 'r) Llama \<Rightarrow> Tokenizer \<Rightarrow> (nat \<Rightarrow> real) \<Rightarrow> 'r \<Rightarrow> Args \<Rightarrow> ModelStats
     \<Rightarrow> error + real list"
where
  "main M tk clk rng args stats0 =
     and_then (generate M tk clk rng args stats0) (\<lambda>st. print_statistics (stats st))"

text \<open>
  A small network and two codecs to run the driver on. The network adds up token ids, its
  single block accumulates what it has seen in its cache entry, and the logits are the
  hidden state; \<open>toy_decode\<close> writes one letter per token.
\<close>

definition toy_model :: "(int, int, int, nat) Llama" where
  "toy_model =
     \<lparr>tok_embeddings = sum_list,
      layers = [\<lambda>x msk cache. (case cache of None \<Rightarrow> (x, x) | Some c \<Rightarrow> (x + c, x + c))],
      final_norm = (\<lambda>h. h),
      output_last = (\<lambda>h. 3 * h + 1),
      argmax = (\<lambda>l. l mod 7),
      categorical = (\<lambda>l s r. ((l + int r) mod 7, Suc r))\<rparr>"

definition toy_piece :: "int \<Rightarrow> string" where
  "toy_piece t = (if t = 0 then '' '' else [char_of (97 + nat t)])"

definition toy_tokenizer :: Tokenizer where
  "toy_tokenizer =
     \<lparr>bos_id = 1,
      encode = (\<lambda>s. if s = [] then [] else [5, 9, 2]),
      decode = (\<lambda>ts. concat (map toy_piece ts))\<rparr>"

text \<open>
  A codec with byte-fallback pieces, as SentencePiece models for Llama have: token 3 is the
  first byte of a two-byte character and token 5 its second byte. Together they decode to
  the character (written \<open>e\<close> here); a first byte that is not followed by its second byte
  decodes to a replacement mark (written \<open>?\<close>).
\<close>

fun fallback_decode :: "int list \<Rightarrow> string" where
  "fallback_decode [] = []"
| "fallback_decode [a] = (if a = 3 then ''?'' else toy_piece a)"
| "fallback_decode (a # b # ts) =
     (if a = 3 \<and> b = 5 then CHR ''e'' # fallback_decode ts
      else (if a = 3 then ''?'' else toy_piece a) @ fallback_decode (b # ts))"

definition fallback_tokenizer :: Tokenizer where
  "fallback_tokenizer =
     \<lparr>bos_id = 1, encode = (\<lambda>s. if s = [] then [] else [5, 9, 2]), decode = fallback_decode\<rparr>"

definition toy_stats :: ModelStats where
  "toy_stats =
     \<lparr>start_load = 0, end_load = 0, start_gen = 0, end_prompt = 0, end_gen = 0,
      num_tokens_prompt = 0, num_tokens_response = 0\<rparr>"

definition toy_clock :: "nat \<Rightarrow> real" where
  "toy_clock n = 10 + real n"

section \<open>Array shapes through the network\<close>

text \<open>
  For the properties that speak of array shapes only, an array is represented by its shape
  and every operation of the array library by its shape rule; \<open>None\<close> stands for the
  exception the library raises when shapes do not fit. Values play no part in a shape
  rule, so scaling, \<open>softmax\<close>, \<open>silu\<close>, \<open>astype\<close> and the like are the identity here.
\<close>

text \<open>
  \<open>mx.reshape\<close> and \<open>array.reshape\<close>. The target lists the new extents, \<open>None\<close> for the
  \<open>-1\<close> whose extent is inferred.
\<close>

definition reshape :: "shape \<Rightarrow> nat option list \<Rightarrow> shape option" where
  "reshape s tgt =
     (let known = prod_list (map (\<lambda>d. case d of None \<Rightarrow> 1 | Some k \<Rightarrow> k) tgt);
          holes = length (filter (\<lambda>d. d = None) tgt);
          inferred = prod_list s div known
      in if (holes = 0 \<and> known = prod_list s) \<or>
            (holes = 1 \<and> known \<noteq> 0 \<and> prod_list s mod known = 0)
         then Some (map (\<lambda>d. case d of None \<Rightarrow> inferred | Some k \<Rightarrow> k) tgt)
         else None)"

text \<open>\<open>array.transpose(axes)\<close>: the axes must be a permutation of all axes.\<close>

definition transpose_axes :: "shape \<Rightarrow> nat list \<Rightarrow> shape option" where
  "transpose_axes s axes =
     (if sort axes = [0..<length s] then Some (map (\<lambda>i. s ! i) axes) else None)"

text \<open>\<open>mx.expand_dims(a, axis)\<close>.\<close>

definition expand_dims :: "shape \<Rightarrow> nat \<Rightarrow> shape option" where
  "expand_dims s ax = (if ax \<le> length s then Some (take ax s @ [1] @ drop ax s) else None)"

text \<open>
  \<open>mx.concatenate(arrays, axis)\<close>: at least one array, all of one rank, agreeing on every
  axis but the one concatenated.
\<close>

definition concatenate :: "shape list \<Rightarrow> nat \<Rightarrow> shape option" where
  "concatenate ss ax =
     (case ss of
        [] \<Rightarrow> None
      | s # rest \<Rightarrow>
          if ax < length s \<and>
             list_all (\<lambda>t. length t = length s \<and> take ax t = take ax s \<and>
                           drop (Suc ax) t = drop (Suc ax) s) rest
          then Some (s[ax := sum_list (map (\<lambda>t. t ! ax) ss)])
          else None)"

text \<open>
  Broadcasting of two shapes, aligned at the last axis: extents must be equal or one of
  them 1.
\<close>

fun broadcast_rev :: "nat list \<Rightarrow> nat list \<Rightarrow> nat list option" where
  "broadcast_rev [] ys = Some ys"
| "broadcast_rev xs [] = Some xs"
| "broadcast_rev (x # xs) (y # ys) =
     (if x = y \<or> y = 1 then map_option ((#) x) (broadcast_rev xs ys)
      else if x = 1 then map_option ((#) y) (broadcast_rev xs ys)
      else None)"

definition broadcast_shapes :: "shape \<Rightarrow> shape \<Rightarrow> shape option" where
  "broadcast_shapes a b = map_option rev (broadcast_rev (rev a) (rev b))"

text \<open>
  \<open>a @ b\<close> on arrays of rank two or more (the code multiplies no others): the inner
  extents must agree, the leading axes are broadcast.
\<close>

definition matmul :: "shape \<Rightarrow> shape \<Rightarrow> shape option" where
  "matmul a b =
     (if 2 \<le> length a \<and> 2 \<le> length b \<and> last a = b ! (length b - 2)
      then do {
        batch \<leftarrow> broadcast_shapes (take (length a - 2) a) (take (length b - 2) b);
        Some (batch @ [a ! (length a - 2), last b])
      }
      else None)"

text \<open>
  \<open>nn.Linear(input_dims, output_dims, bias=False)\<close> applied to \<open>x\<close>, that is \<open>x @ W.T\<close> with
  \<open>W\<close> of shape \<open>[output_dims, input_dims]\<close>; a quantized linear layer has the same rule.
\<close>

definition Linear :: "nat \<Rightarrow> nat \<Rightarrow> shape \<Rightarrow> shape option" where
  "Linear input_dims output_dims x =
     (if x \<noteq> [] \<and> last x = input_dims then Some (butlast x @ [output_dims]) else None)"

text \<open>\<open>nn.Embedding(vocab_size, dims)\<close> applied to an array of ids.\<close>

definition Embedding :: "nat \<Rightarrow> shape \<Rightarrow> shape option" where
  "Embedding dims x = Some (x @ [dims])"

record ModelArgs =
  dim :: nat
  n_layers :: nat
  head_dim :: nat
  hidden_dim :: nat
  n_heads :: nat
  n_kv_heads :: nat
  norm_eps :: real
  vocab_size :: nat
  rope_theta :: real
  rope_traditional :: bool

text \<open>
  \<open>RMSNorm.__call__\<close>: the mean over the last axis keeps the shape of \<open>x\<close> (which needs an
  axis), then the weight of shape \<open>[dims]\<close> is multiplied on.
\<close>

definition RMSNorm :: "nat \<Rightarrow> shape \<Rightarrow> shape option" where
  "RMSNorm dims x = (if x = [] then None else broadcast_shapes [dims] x)"

text \<open>
  The rotation proper is library code (\<open>nn.RoPE._compute_rope\<close> and
  \<open>_compute_traditional_rope\<close>, with the tables of \<open>create_cos_sin_theta\<close>). Its shape rule
  for an input \<open>[M, L, D]\<close> whose feature extent \<open>D\<close> is the even number \<open>dims\<close>: the
  traditional layout returns the pairs as \<open>[M, L, D / 2, 2]\<close>, the other layout returns
  \<open>[M, L, D]\<close>. Other feature extents are not used by this program and are left out.
\<close>

definition rope_rotate :: "nat \<Rightarrow> bool \<Rightarrow> shape \<Rightarrow> shape option" where
  "rope_rotate dims traditional x3 =
     (case x3 of
        [M, L, D] \<Rightarrow>
          if D = dims \<and> even dims
          then Some (if traditional then [M, L, dims div 2, 2] else [M, L, D])
          else None
      | _ \<Rightarrow> None)"

text \<open>
  \<open>RoPE.__call__(x, offset)\<close>: flatten the leading axes, rotate, reshape back to the shape
  of \<open>x\<close>. The offset selects the positions and does not enter the shape.
\<close>

definition RoPE :: "nat \<Rightarrow> bool \<Rightarrow> shape \<Rightarrow> nat \<Rightarrow> shape option" where
  "RoPE dims traditional x offset =
     (if length x < 2 then None
      else do {
        x3 \<leftarrow> reshape x [None, Some (x ! (length x - 2)), Some (last x)];
        rx \<leftarrow> rope_rotate dims traditional x3;
        reshape rx (map Some x)
      })"

text \<open>
  The inner function \<open>repeat\<close> of \<open>Attention.__call__\<close>, with \<open>self.repeats\<close>,
  \<open>self.n_heads\<close>, \<open>B\<close> and \<open>L\<close> as arguments.
\<close>

definition repeat_heads :: "nat \<Rightarrow> nat \<Rightarrow> nat \<Rightarrow> nat \<Rightarrow> shape \<Rightarrow> shape option" where
  "repeat_heads repeats heads B L a = do {
     e \<leftarrow> expand_dims a 2;
     c \<leftarrow> concatenate (replicate repeats e) 2;
     reshape c [Some B, Some heads, Some L, None]
   }"

text \<open>
  \<open>Attention.__init__\<close>, as far as it computes: \<open>self.repeats = n_heads // n_kv_heads\<close>
  and \<open>self.scale = head_dim ** -0.5\<close>, which both raise \<open>ZeroDivisionError\<close> on a zero.
  The result is \<open>self.repeats\<close>.
\<close>

definition Attention_init :: "ModelArgs \<Rightarrow> nat option" where
  "Attention_init args =
     (if n_kv_heads args = 0 \<or> head_dim args = 0 then None
      else Some (n_heads args div n_kv_heads args))"

text \<open>
  A cache entry is the pair (keys, values). \<open>Attention.__call__(x, mask, cache)\<close>, line by
  line, after the constructor. The result is the shape of the output with the pair
  (keys, values).
\<close>

type_synonym kv = "shape \<times> shape"

definition Attention :: "ModelArgs \<Rightarrow> shape \<Rightarrow> shape option \<Rightarrow> kv option \<Rightarrow> (shape \<times> kv) option" where
  "Attention args x msk cache = do {
     repeats \<leftarrow> Attention_init args;
     (B, L) \<leftarrow> (case x of [B, L, D] \<Rightarrow> Some (B, L) | _ \<Rightarrow> None);
     queries \<leftarrow> Linear (dim args) (n_heads args * head_dim args) x;
     keys \<leftarrow> Linear (dim args) (n_kv_heads args * head_dim args) x;
     values \<leftarrow> Linear (dim args) (n_kv_heads args * head_dim args) x;
     queries \<leftarrow> reshape queries [Some B, Some L, Some (n_heads args), None];
     queries \<leftarrow> transpose_axes queries [0, 2, 1, 3];
     keys \<leftarrow> reshape keys [Some B, Some L, Some (n_kv_heads args), None];
     keys \<leftarrow> transpose_axes keys [0, 2, 1, 3];
     values \<leftarrow> reshape values [Some B, Some L, Some (n_kv_heads args), None];
     values \<leftarrow> transpose_axes values [0, 2, 1, 3];
     keys \<leftarrow> repeat_heads repeats (n_heads args) B L keys;
     values \<leftarrow> repeat_heads repeats (n_heads args) B L values;
     (queries, keys, values) \<leftarrow>
       (case cache of
          Some (key_cache, value_cache) \<Rightarrow> do {
            offset \<leftarrow> (if 2 < length key_cache then Some (key_cache ! 2) else None);
            queries \<leftarrow> RoPE (head_dim args) (rope_traditional args) queries offset;
            keys \<leftarrow> RoPE (head_dim args) (rope_traditional args) keys offset;
            keys \<leftarrow> concatenate [key_cache, keys] 2;
            values \<leftarrow> concatenate [value_cache, values] 2;
            Some (queries, keys, values)
          }
        | None \<Rightarrow> do {
            queries \<leftarrow> RoPE (head_dim args) (rope_traditional args) queries 0;
            keys \<leftarrow> RoPE (head_dim args) (rope_traditional args) keys 0;
            Some (queries, keys, values)
          });
     keys_t \<leftarrow> transpose_axes keys [0, 1, 3, 2];
     scores \<leftarrow> matmul queries keys_t;
     scores \<leftarrow> (case msk of Some m \<Rightarrow> broadcast_shapes scores m | None \<Rightarrow> Some scores);
     output \<leftarrow> matmul scores values;
     output \<leftarrow> transpose_axes output [0, 2, 1, 3];
     output \<leftarrow> reshape output [Some B, Some L, None];
     output \<leftarrow> Linear (n_heads args * head_dim args) (dim args) output;
     Some (output, (keys, values))
   }"

text \<open>\<open>FeedForward.__call__\<close>: \<open>w2(silu(w1(x)) * w3(x))\<close>.\<close>

definition FeedForward :: "ModelArgs \<Rightarrow> shape \<Rightarrow> shape option" where
  "FeedForward args x = do {
     a \<leftarrow> Linear (dim args) (hidden_dim args) x;
     b \<leftarrow> Linear (dim args) (hidden_dim args) x;
     g \<leftarrow> broadcast_shapes a b;
     Linear (hidden_dim args) (dim args) g
   }"

text \<open>\<open>TransformerBlock.__call__(x, mask, cache)\<close>.\<close>

definition TransformerBlock ::
  "ModelArgs \<Rightarrow> shape \<Rightarrow> shape option \<Rightarrow> kv option \<Rightarrow> (shape \<times> kv) option"
where
  "TransformerBlock args x msk cache = do {
     xn \<leftarrow> RMSNorm (dim args) x;
     (r, cache') \<leftarrow> Attention args xn msk cache;
     h \<leftarrow> broadcast_shapes x r;
     hn \<leftarrow> RMSNorm (dim args) h;
     r \<leftarrow> FeedForward args hn;
     out \<leftarrow> broadcast_shapes h r;
     Some (out, cache')
   }"

text \<open>
  The prompt loop of \<open>Llama.generate\<close> over the \<open>n_layers\<close> blocks (all built from the same
  \<open>ModelArgs\<close>), appending each block's cache entry.
\<close>

fun prompt_blocks ::
  "ModelArgs \<Rightarrow> nat \<Rightarrow> shape \<Rightarrow> shape \<Rightarrow> kv list \<Rightarrow> (shape \<times> kv list) option"
where
  "prompt_blocks args 0 x msk cache = Some (x, cache)"
| "prompt_blocks args (Suc n) x msk cache = do {
     (x', c) \<leftarrow> TransformerBlock args x (Some msk) None;
     prompt_blocks args n x' msk (cache @ [c])
   }"

text \<open>
  The decode loop of \<open>Llama.generate\<close>: the entries of the cache list are visited in order,
  each is passed to its block and replaced by what the block returns.
\<close>

fun decode_blocks :: "ModelArgs \<Rightarrow> shape \<Rightarrow> kv list \<Rightarrow> (shape \<times> kv list) option" where
  "decode_blocks args x [] = Some (x, [])"
| "decode_blocks args x (c # cs) = do {
     (x', c') \<leftarrow> TransformerBlock args x None (Some c);
     (x'', cs') \<leftarrow> decode_blocks args x' cs;
     Some (x'', c' # cs')
   }"

text \<open>
  The end of both phases: final norm, \<open>x[:, -1]\<close> (which needs a position), the output
  projection, and \<open>sample\<close>, whose two branches both drop the last axis.
\<close>

definition last_position :: "shape \<Rightarrow> shape option" where
  "last_position x =
     (case x of b # l # rest \<Rightarrow> if l = 0 then None else Some (b # rest) | _ \<Rightarrow> None)"

definition sample_shape :: "shape \<Rightarrow> shape option" where
  "sample_shape logits = (if logits = [] then None else Some (butlast logits))"

definition next_token_shape :: "ModelArgs \<Rightarrow> shape \<Rightarrow> shape option" where
  "next_token_shape args h = do {
     hn \<leftarrow> RMSNorm (dim args) h;
     hl \<leftarrow> last_position hn;
     logits \<leftarrow> Linear (dim args) (vocab_size args) hl;
     sample_shape logits
   }"

text \<open>
  Prompt ingestion on an id array of shape \<open>x\<close>: the mask of
  \<open>create_additive_causal_mask(x.shape[1])\<close> is square of that size. The result is the
  shape of \<open>y\<close> with the cache list.
\<close>

definition prompt_shapes :: "ModelArgs \<Rightarrow> shape \<Rightarrow> (shape \<times> kv list) option" where
  "prompt_shapes args x = do {
     N \<leftarrow> (if 1 < length x then Some (x ! 1) else None);
     h \<leftarrow> Embedding (dim args) x;
     (h, cache) \<leftarrow> prompt_blocks args (n_layers args) h [N, N] [];
     y \<leftarrow> next_token_shape args h;
     Some (y, cache)
   }"

text \<open>A decode step, from \<open>x = y[:, None]\<close> on.\<close>

definition step_shapes :: "ModelArgs \<Rightarrow> shape \<times> kv list \<Rightarrow> (shape \<times> kv list) option" where
  "step_shapes args st = do {
     x \<leftarrow> (case fst st of b # rest \<Rightarrow> Some (b # 1 # rest) | [] \<Rightarrow> None);
     h \<leftarrow> Embedding (dim args) x;
     (h, cache) \<leftarrow> decode_blocks args h (snd st);
     y \<leftarrow> next_token_shape args h;
     Some (y, cache)
   }"

text \<open>
  The shapes of \<open>y\<close> and of the cache list when the generator has yielded \<open>k + 1\<close> tokens:
  after prompt ingestion and \<open>k\<close> decode steps.
\<close>

fun generate_shapes :: "ModelArgs \<Rightarrow> shape \<Rightarrow> nat \<Rightarrow> (shape \<times> kv list) option" where
  "generate_shapes args x 0 = prompt_shapes args x"
| "generate_shapes args x (Suc k) = do {
     st \<leftarrow> generate_shapes args x k;
     step_shapes args st
   }"

text \<open>
  The configurations the model is built for: every extent is positive, the head count is
  a multiple of the key/value head count, and the head dimension is even (the rotation
  works on pairs).
\<close>

definition well_formed :: "ModelArgs \<Rightarrow> bool" where
  "well_formed args \<longleftrightarrow>
     0 < dim args \<and> 0 < hidden_dim args \<and> 0 < vocab_size args \<and>
     0 < n_kv_heads args \<and> 0 < n_heads args \<and> n_heads args mod n_kv_heads args = 0 \<and>
     0 < head_dim args \<and> even (head_dim args)"

text \<open>A small grouped-query configuration: four query heads on two key/value heads.\<close>

definition gqa_args :: ModelArgs where
  "gqa_args =
     \<lparr>dim = 8, n_layers = 2, head_dim = 2, hidden_dim = 16, n_heads = 4, n_kv_heads = 2,
      norm_eps = 1 / 100000, vocab_size = 32, rope_theta = 10000, rope_traditional = True\<rparr>"
section \<open>Properties of the loader\<close>

lemma and_then_Inr [simp]: "and_then (Inr v) f = f v"
  by (simp add: and_then_def)

lemma and_then_Inl [simp]: "and_then (Inl e) f = Inl e"
  by (simp add: and_then_def)

lemma py_floordiv_int [simp]:
  "py_floordiv (PInt i) (PInt j) = (if j = 0 then Inl ZeroDivisionError else Inr (PInt (i div j)))"
  by (simp add: py_floordiv_def)

lemma default_to_apply:
  "default_to c k v k' = (if k' = k \<and> c k = None then Some v else c k')"
  by (simp add: default_to_def)

lemma step_head_dim:
  assumes "c ''head_dim'' = None \<Longrightarrow> c ''dim'' = Some d \<and> py_floordiv d n = Inr q"
  shows "(if c ''head_dim'' = None
          then (case c ''dim'' of
                  None \<Rightarrow> Inl KeyError
                | Some d \<Rightarrow> and_then (py_floordiv d n) (\<lambda>q. Inr (c(''head_dim'' \<mapsto> q))))
          else Inr c) = Inr (default_to c ''head_dim'' q)"
  using assms by (cases "c ''head_dim''") (simp_all add: default_to_def)

lemma step_hidden_dim:
  assumes "c ''hidden_dim'' = None \<Longrightarrow> weight_dim_first weights nm = Inr h"
  shows "(if c ''hidden_dim'' = None
          then and_then (weight_dim_first weights nm) (\<lambda>h. Inr (c(''hidden_dim'' \<mapsto> h)))
          else Inr c) = Inr (default_to c ''hidden_dim'' h)"
  using assms by (cases "c ''hidden_dim''") (simp_all add: default_to_def)

lemma step_vocab_size:
  assumes "py_negative (case c ''vocab_size'' of None \<Rightarrow> PInt (- 1) | Some v \<Rightarrow> v) = Inr b"
    and "b \<Longrightarrow> weight_dim_last weights nm = Inr w"
  shows "and_then (py_negative (case c ''vocab_size'' of None \<Rightarrow> PInt (- 1) | Some v \<Rightarrow> v))
           (\<lambda>neg. if neg
                   then and_then (weight_dim_last weights nm) (\<lambda>v. Inr (c(''vocab_size'' \<mapsto> v)))
                   else Inr c)
         = Inr (if b then c(''vocab_size'' \<mapsto> w) else c)"
  using assms by (cases b) simp_all

lemma sanitized_defaults:
  "sanitized config nhv q h b w ''n_kv_heads'' =
     (case config ''n_kv_heads'' of None \<Rightarrow> Some nhv | Some v \<Rightarrow> Some v)"
  "sanitized config nhv q h b w ''head_dim'' =
     (case config ''head_dim'' of None \<Rightarrow> Some q | Some v \<Rightarrow> Some v)"
  "sanitized config nhv q h b w ''hidden_dim'' =
     (case config ''hidden_dim'' of None \<Rightarrow> Some h | Some v \<Rightarrow> Some v)"
  "sanitized config nhv q h b w ''rope_theta'' =
     (case config ''rope_theta'' of None \<Rightarrow> Some (PInt 10000) | Some v \<Rightarrow> Some v)"
  "sanitized config nhv q h b w ''vocab_size'' = (if b then Some w else config ''vocab_size'')"
  by (simp_all add: sanitized_def default_to_apply split: option.splits)

lemma default_to_keep: "c k \<noteq> None \<Longrightarrow> default_to c k' v k = c k"
  by (auto simp: default_to_apply)

lemma sanitized_keep:
  assumes "k \<noteq> ''model_type''" "k \<noteq> ''multiple_of''" "k \<noteq> ''ffn_dim_multiplier''"
    "k \<noteq> ''vocab_size''" "config k \<noteq> None"
  shows "sanitized config nhv q h b w k = config k"
  using assms by (simp add: sanitized_def default_to_keep)

lemma sanitize_config_result:
  assumes nh: "config ''n_heads'' = Some nhv"
    and hd: "config ''head_dim'' = None \<longrightarrow>
               config ''dim'' = Some d \<and> py_floordiv d nhv = Inr q"
    and hid: "config ''hidden_dim'' = None \<longrightarrow>
               weight_dim_first weights ''layers.0.feed_forward.w1.weight'' = Inr h"
    and neg: "py_negative (case config ''vocab_size'' of None \<Rightarrow> PInt (- 1) | Some v \<Rightarrow> v) = Inr b"
    and voc: "b \<longrightarrow> weight_dim_last weights ''output.weight'' = Inr w"
  shows "sanitize_config config weights =
           Inr (sanitized config nhv q h b w)"
proof -
  define c0 where "c0 = config(''model_type'' := None)"
  define c1 where "c1 = default_to c0 ''n_kv_heads'' nhv"
  define c2 where "c2 = default_to c1 ''head_dim'' q"
  define c3 where "c3 = default_to c2 ''hidden_dim'' h"
  have k0: "c0 ''n_heads'' = Some nhv"
    using nh by (simp add: c0_def)
  have hd1: "c1 ''head_dim'' = config ''head_dim''" and dim1: "c1 ''dim'' = config ''dim''"
    by (simp_all add: c1_def c0_def default_to_apply)
  have hid2: "c2 ''hidden_dim'' = config ''hidden_dim''"
    by (simp add: c2_def c1_def c0_def default_to_apply)
  have v3: "c3 ''vocab_size'' = config ''vocab_size''"
    by (simp add: c3_def c2_def c1_def c0_def default_to_apply)
  have s2: "(if c1 ''head_dim'' = None
             then (case c1 ''dim'' of
                     None \<Rightarrow> Inl KeyError
                   | Some d \<Rightarrow> and_then (py_floordiv d nhv) (\<lambda>q. Inr (c1(''head_dim'' \<mapsto> q))))
             else Inr c1) = Inr c2"
    unfolding c2_def by (rule step_head_dim [where d = d]) (use hd hd1 dim1 in simp)
  have s3: "(if c2 ''hidden_dim'' = None
             then and_then (weight_dim_first weights ''layers.0.feed_forward.w1.weight'')
                    (\<lambda>h. Inr (c2(''hidden_dim'' \<mapsto> h)))
             else Inr c2) = Inr c3"
    unfolding c3_def by (rule step_hidden_dim) (use hid hid2 in simp)
  have s4: "and_then (py_negative (case c3 ''vocab_size'' of None \<Rightarrow> PInt (- 1) | Some v \<Rightarrow> v))
              (\<lambda>neg. if neg
                      then and_then (weight_dim_last weights ''output.weight'')
                             (\<lambda>v. Inr (c3(''vocab_size'' \<mapsto> v)))
                      else Inr c3)
            = Inr (if b then c3(''vocab_size'' \<mapsto> w) else c3)"
    by (rule step_vocab_size) (use neg voc v3 in simp_all)
  have "sanitize_config config weights =
          Inr ((default_to (if b then c3(''vocab_size'' \<mapsto> w) else c3) ''rope_theta'' (PInt 10000))
                (''multiple_of'' := None, ''ffn_dim_multiplier'' := None))"
    unfolding sanitize_config_def Let_def c0_def[symmetric] k0 option.case
      default_to_def[symmetric] c1_def[symmetric] s2 and_then_Inr s3 s4
    by (rule refl)
  then show ?thesis
    by (simp only: c3_def c2_def c1_def c0_def sanitized_def)
qed


text \<open>
  Claim C6. Let the config hold \<open>n_heads\<close>; where \<open>head_dim\<close> is missing let \<open>n_heads\<close> be a
  non-zero int and \<open>dim\<close> an int; where \<open>hidden_dim\<close> is missing let the weights hold
  \<open>layers.0.feed_forward.w1.weight\<close> with at least one axis; and let the vocabulary test
  \<open>config.get("vocab_size", -1) < 0\<close> evaluate (to \<open>b\<close>), with \<open>output.weight\<close> loaded when
  it is true. Then \<open>sanitize_config\<close> returns a config in which each of \<open>n_kv_heads\<close>,
  \<open>head_dim\<close>, \<open>hidden_dim\<close> and \<open>rope_theta\<close> keeps its value when it was present and
  otherwise is \<open>n_heads\<close>, \<open>dim // n_heads\<close>, the first axis of the \<open>w1\<close> weight, and
  \<open>10000\<close>. Every other field that was present, apart from the three removed keys and
  \<open>vocab_size\<close>, is unchanged.
\<close>

theorem sanitize_config_defaults:
  assumes nh: "config ''n_heads'' = Some nhv"
    and hd: "config ''head_dim'' = None \<longrightarrow>
               nhv = PInt n \<and> n \<noteq> 0 \<and> config ''dim'' = Some (PInt d)"
    and hid: "config ''hidden_dim'' = None \<longrightarrow>
               weights ''layers.0.feed_forward.w1.weight'' = Some (h # hs)"
    and neg: "py_negative (case config ''vocab_size'' of None \<Rightarrow> PInt (- 1) | Some v \<Rightarrow> v) = Inr b"
    and voc: "b \<longrightarrow> weights ''output.weight'' = Some (w # ws)"
  shows "\<exists>c'. sanitize_config config weights = Inr c' \<and>
           c' ''n_kv_heads'' =
             (case config ''n_kv_heads'' of None \<Rightarrow> Some nhv | Some v \<Rightarrow> Some v) \<and>
           c' ''head_dim'' =
             (case config ''head_dim'' of None \<Rightarrow> Some (PInt (d div n)) | Some v \<Rightarrow> Some v) \<and>
           c' ''hidden_dim'' =
             (case config ''hidden_dim'' of None \<Rightarrow> Some (PInt (int h)) | Some v \<Rightarrow> Some v) \<and>
           c' ''rope_theta'' =
             (case config ''rope_theta'' of None \<Rightarrow> Some (PInt 10000) | Some v \<Rightarrow> Some v) \<and>
           (\<forall>k. k \<notin> {''model_type'', ''multiple_of'', ''ffn_dim_multiplier'', ''vocab_size''} \<and>
                config k \<noteq> None \<longrightarrow> c' k = config k)"
proof -
  have fd: "config ''head_dim'' = None \<longrightarrow>
              config ''dim'' = Some (PInt d) \<and> py_floordiv (PInt d) nhv = Inr (PInt (d div n))"
    using hd by simp
  have w1: "config ''hidden_dim'' = None \<longrightarrow>
              weight_dim_first weights ''layers.0.feed_forward.w1.weight'' = Inr (PInt (int h))"
    using hid by (simp add: weight_dim_first_def)
  have wo: "b \<longrightarrow> weight_dim_last weights ''output.weight'' = Inr (PInt (int (last (w # ws))))"
    using voc by (simp add: weight_dim_last_def)
  note r = sanitize_config_result [OF nh fd w1 neg wo]
  show ?thesis
    unfolding r
    apply (rule exI, rule conjI, rule refl)
    apply (simp only: sanitized_defaults)
    apply (intro conjI allI impI refl)
    apply (rule sanitized_keep)
    apply simp_all
    done
qed

text \<open>The example config satisfies the conditions of both theorems.\<close>

lemma example_config_ok:
  "example_config ''n_heads'' = Some (PInt 32)"
  "example_config ''head_dim'' = None \<longrightarrow>
     PInt 32 = PInt 32 \<and> (32::int) \<noteq> 0 \<and> example_config ''dim'' = Some (PInt 4096)"
  "example_config ''hidden_dim'' = None \<longrightarrow>
     example_weights ''layers.0.feed_forward.w1.weight'' = Some (11008 # [4096])"
  "py_negative (case example_config ''vocab_size'' of None \<Rightarrow> PInt (- 1) | Some v \<Rightarrow> v) = Inr True"
  "True \<longrightarrow> example_weights ''output.weight'' = Some (32000 # [4096])"
  by (simp_all add: example_config_def example_weights_def py_negative_def)

theorem sanitize_config_defaults_witness:
  "\<exists>c'. sanitize_config example_config example_weights = Inr c' \<and>
        c' ''n_kv_heads'' = Some (PInt 32) \<and> c' ''head_dim'' = Some (PInt 128) \<and>
        c' ''hidden_dim'' = Some (PInt 11008) \<and> c' ''rope_theta'' = Some (PInt 10000) \<and>
        c' ''dim'' = Some (PInt 4096)"
proof -
  have k: "example_config ''n_kv_heads'' = None" "example_config ''head_dim'' = None"
    "example_config ''hidden_dim'' = None" "example_config ''rope_theta'' = None"
    "example_config ''dim'' = Some (PInt 4096)"
    by (simp_all add: example_config_def)
  from sanitize_config_defaults [OF example_config_ok]
  obtain c' where c: "sanitize_config example_config example_weights = Inr c'"
    "c' ''n_kv_heads'' = (case example_config ''n_kv_heads'' of None \<Rightarrow> Some (PInt 32) | Some v \<Rightarrow> Some v)"
    "c' ''head_dim'' = (case example_config ''head_dim'' of None \<Rightarrow> Some (PInt (4096 div 32)) | Some v \<Rightarrow> Some v)"
    "c' ''hidden_dim'' = (case example_config ''hidden_dim'' of None \<Rightarrow> Some (PInt (int 11008)) | Some v \<Rightarrow> Some v)"
    "c' ''rope_theta'' = (case example_config ''rope_theta'' of None \<Rightarrow> Some (PInt 10000) | Some v \<Rightarrow> Some v)"
    "\<forall>k. k \<notin> {''model_type'', ''multiple_of'', ''ffn_dim_multiplier'', ''vocab_size''} \<and>
                example_config k \<noteq> None \<longrightarrow> c' k = example_config k"
    by blast
  have "c' ''dim'' = example_config ''dim''"
    using c(6) k(5) by simp
  then show ?thesis
    using c(1-5) k by simp
qed

text \<open>
  Claim C9. Under the same conditions for \<open>sanitize_config\<close> to return, the returned
  \<open>vocab_size\<close> is the last axis of \<open>output.weight\<close> when the config has no \<open>vocab_size\<close>
  or a negative one (\<open>b\<close> is true exactly then), and the config's own \<open>vocab_size\<close>
  otherwise.
\<close>

theorem sanitize_config_vocab_size:
  assumes nh: "config ''n_heads'' = Some nhv"
    and hd: "config ''head_dim'' = None \<longrightarrow>
               nhv = PInt n \<and> n \<noteq> 0 \<and> config ''dim'' = Some (PInt d)"
    and hid: "config ''hidden_dim'' = None \<longrightarrow>
               weights ''layers.0.feed_forward.w1.weight'' = Some (h # hs)"
    and neg: "py_negative (case config ''vocab_size'' of None \<Rightarrow> PInt (- 1) | Some v \<Rightarrow> v) = Inr b"
    and voc: "b \<longrightarrow> weights ''output.weight'' = Some (w # ws)"
  shows "\<exists>c'. sanitize_config config weights = Inr c' \<and>
           c' ''vocab_size'' =
             (if b then Some (PInt (int (last (w # ws)))) else config ''vocab_size'') \<and>
           (b \<longleftrightarrow> (case config ''vocab_size'' of
                     None \<Rightarrow> True
                   | Some v \<Rightarrow> (case as_num v of
                                Some (NInt i) \<Rightarrow> i < 0 | Some (NFloat r) \<Rightarrow> r < 0 | None \<Rightarrow> False)))"
proof -
  have fd: "config ''head_dim'' = None \<longrightarrow>
              config ''dim'' = Some (PInt d) \<and> py_floordiv (PInt d) nhv = Inr (PInt (d div n))"
    using hd by simp
  have w1: "config ''hidden_dim'' = None \<longrightarrow>
              weight_dim_first weights ''layers.0.feed_forward.w1.weight'' = Inr (PInt (int h))"
    using hid by (simp add: weight_dim_first_def)
  have wo: "b \<longrightarrow> weight_dim_last weights ''output.weight'' = Inr (PInt (int (last (w # ws))))"
    using voc by (simp add: weight_dim_last_def)
  note r = sanitize_config_result [OF nh fd w1 neg wo]
  have b: "b \<longleftrightarrow> (case config ''vocab_size'' of
                     None \<Rightarrow> True
                   | Some v \<Rightarrow> (case as_num v of
                                Some (NInt i) \<Rightarrow> i < 0 | Some (NFloat r) \<Rightarrow> r < 0 | None \<Rightarrow> False))"
    using neg by (auto simp: py_negative_def split: option.splits pynum.splits)
  show ?thesis
    unfolding r
    apply (rule exI, rule conjI, rule refl)
    apply (rule conjI)
     apply (simp only: sanitized_defaults)
    apply (rule b)
    done
qed

theorem sanitize_config_vocab_size_witness:
  "\<exists>c'. sanitize_config example_config example_weights = Inr c' \<and>
        c' ''vocab_size'' = Some (PInt 4096)"
  using sanitize_config_vocab_size [OF example_config_ok] by auto

section \<open>Properties of the generation sequence and the driver\<close>

lemma next_token_greedy:
  "next_token M 0 (with_rng r g) = (case next_token M 0 g of (y, g') \<Rightarrow> (y, with_rng r g'))"
  by (cases g)
    (simp_all add: next_token_def ingest_prompt_def decode_step_def sample_def Let_def
      split: prod.splits)

lemma take_tokens_greedy:
  "take_tokens M 0 (with_rng r g) n = (case take_tokens M 0 g n of (ys, g') \<Rightarrow> (ys, with_rng r g'))"
  by (induction n arbitrary: g) (simp_all add: next_token_greedy split: prod.splits)

text \<open>
  Claim C3. With temperature 0 the first \<open>n\<close> tokens of the generation sequence are the
  same for any two random states \<open>r1\<close> and \<open>r2\<close>, for every network, prompt and \<open>n\<close>.
\<close>

theorem greedy_deterministic:
  "fst (take_tokens M 0 (Unstarted x r1) n) = fst (take_tokens M 0 (Unstarted x r2) n)"
  using take_tokens_greedy [of M r1 "Unstarted x r2" n] by (simp split: prod.splits)

text \<open>
  The statement of C3 at the toy network, for two different random states.
\<close>

theorem greedy_deterministic_witness:
  "fst (take_tokens toy_model 0 (Unstarted [1, 5, 9, 2] (0::nat)) 3) =
   fst (take_tokens toy_model 0 (Unstarted [1, 5, 9, 2] (7::nat)) 3)"
  by (rule greedy_deterministic)

lemma driver_loop_Inr:
  assumes "driver_loop M tk clk args st = Inr st'"
  shows "num_tokens_prompt (stats st') = num_tokens_prompt (stats st)"
  using assms
proof (induction M tk clk args st rule: driver_loop.induct)
  case (1 M tk clk args st)
  show ?case
    using "1.prems" "1.IH"
    apply (subst (asm) driver_loop.simps)
    apply (auto simp: Let_def split: prod.splits if_splits)
    done
qed


lemma take_tokens_Suc_max:
  assumes "int l + 1 < m"
  shows "max 1 (nat (m - int l)) = Suc (max 1 (nat (m - int (Suc l))))"
  using assms by (simp add: max_def) linarith

lemma driver_loop_tokens:
  assumes "driver_loop M tk clk args st = Inr st'"
  shows "(tokens st', gen st') =
           (case take_tokens M (temp args) (gen st)
                   (max 1 (nat (max_tokens args - int (length (tokens st))))) of
              (ys, g) \<Rightarrow> (tokens st @ ys, g))"
  using assms
proof (induction M tk clk args st rule: driver_loop.induct)
  case (1 M tk clk args st)
  obtain token g where nt: "next_token M (temp args) (gen st) = (token, g)"
    by (cases "next_token M (temp args) (gen st)")
  show ?case
  proof (cases "max_tokens args \<le> int (length (tokens st)) + 1")
    case True
    then have n: "max 1 (nat (max_tokens args - int (length (tokens st)))) = Suc 0"
      by (simp add: max_def) linarith
    show ?thesis
      using "1.prems" True nt unfolding n
      by (subst (asm) driver_loop.simps) (auto simp: Let_def split: if_splits)
  next
    case False
    then have n: "max 1 (nat (max_tokens args - int (length (tokens st)))) =
                  Suc (max 1 (nat (max_tokens args - int (Suc (length (tokens st))))))"
      by (intro take_tokens_Suc_max) simp
    show ?thesis
      using "1.prems" "1.IH" False nt unfolding n
      apply (subst (asm) driver_loop.simps)
      apply (auto simp: Let_def split: if_splits prod.splits)
      done
  qed
qed

lemma driver_loop_returns:
  assumes "write_every args \<noteq> 0 \<or> max_tokens args \<le> int (length (tokens st)) + 1"
  shows "\<exists>st'. driver_loop M tk clk args st = Inr st'"
  using assms
proof (induction M tk clk args st rule: driver_loop.induct)
  case (1 M tk clk args st)
  show ?case
    using "1.prems" "1.IH"
    apply (subst driver_loop.simps)
    apply (auto simp: Let_def split: if_splits prod.splits)
    done
qed


lemma take_prefix:
  assumes "prefix xs ys" "n \<le> length xs"
  shows "take n ys = take n xs"
  using assms by (auto simp: prefix_def)

lemma driver_loop_out:
  assumes "\<forall>ts us. prefix (decode tk ts) (decode tk (ts @ us))"
    and "driver_loop M tk clk args st = Inr st'"
    and "out st = pre @ ds"
    and "concat ds = take (skip st) (decode tk (tokens st))"
    and "skip st \<le> length (decode tk (tokens st))"
  shows "\<exists>ds'. out st' = pre @ ds' \<and> concat ds' = take (skip st') (decode tk (tokens st')) \<and>
           skip st' \<le> length (decode tk (tokens st'))"
  using assms
proof (induction M tk clk args st arbitrary: ds rule: driver_loop.induct)
  case (1 M tk clk args st)
  note mono = "1.prems"(1) and run = "1.prems"(2)
  obtain token g where nt: "next_token M (temp args) (gen st) = (token, g)"
    by (cases "next_token M (temp args) (gen st)")
  let ?toks = "tokens st @ [token]"
  let ?st1 = "st\<lparr>tokens := ?toks, gen := g\<rparr>"
  let ?st2 = "if length ?toks = 1 then ?st1\<lparr>stats := (stats ?st1)\<lparr>end_prompt := clk 2\<rparr>\<rparr> else ?st1"
  let ?s = "decode tk ?toks"
  let ?st3 = "?st2\<lparr>out := out ?st2 @ [drop (skip ?st2) ?s], skip := length ?s\<rparr>"
  have st2: "tokens ?st2 = ?toks" "skip ?st2 = skip st" "out ?st2 = out st"
    by simp_all
  have st3: "tokens ?st3 = ?toks" "skip ?st3 = length ?s" "out ?st3 = out st @ [drop (skip st) ?s]"
    by simp_all
  have unfold: "driver_loop M tk clk args st =
      (if max_tokens args \<le> int (length ?toks) then Inr ?st2
       else if write_every args = 0 then Inl ZeroDivisionError
       else if int (length ?toks) mod write_every args = 0
       then driver_loop M tk clk args ?st3
       else driver_loop M tk clk args ?st2)"
    by (subst driver_loop.simps) (simp add: nt Let_def)
  have pre: "prefix (decode tk (tokens st)) ?s"
    using mono by blast
  have len: "skip st \<le> length ?s"
    using pre "1.prems"(5) by (meson le_trans prefix_length_le)
  have tk: "concat ds = take (skip st) ?s"
    using take_prefix [OF pre "1.prems"(5)] "1.prems"(4) by simp
  show ?case
  proof (cases "max_tokens args \<le> int (length ?toks)")
    case True
    then have "st' = ?st2"
      using run unfolding unfold by simp
    then have "tokens st' = ?toks" "skip st' = skip st" "out st' = out st"
      by simp_all
    then show ?thesis
      using "1.prems"(3) len tk by (intro exI [of _ ds]) simp
  next
    case False
    then have w: "write_every args \<noteq> 0"
      using run unfolding unfold by (simp split: if_splits)
    show ?thesis
    proof (cases "int (length ?toks) mod write_every args = 0")
      case True
      then have r: "driver_loop M tk clk args ?st3 = Inr st'"
        using run False w unfolding unfold by simp
      show ?thesis
      proof (rule "1.IH"(1) [OF nt [symmetric] refl refl refl False w True refl mono r])
        show "out ?st3 = pre @ (ds @ [drop (skip st) ?s])"
          unfolding st3 using "1.prems"(3) by simp
        show "concat (ds @ [drop (skip st) ?s]) = take (skip ?st3) (decode tk (tokens ?st3))"
          unfolding st3 using tk by simp
        show "skip ?st3 \<le> length (decode tk (tokens ?st3))"
          unfolding st3 by simp
      qed
    next
      case nodiv: False
      then have r: "driver_loop M tk clk args ?st2 = Inr st'"
        using run False w unfolding unfold by simp
      show ?thesis
      proof (rule "1.IH"(2) [OF nt [symmetric] refl refl refl False w nodiv mono r])
        show "out ?st2 = pre @ ds"
          unfolding st2 using "1.prems"(3) by simp
        show "concat ds = take (skip ?st2) (decode tk (tokens ?st2))"
          unfolding st2 using tk by simp
        show "skip ?st2 \<le> length (decode tk (tokens ?st2))"
          unfolding st2 using len by simp
      qed
    qed
  qed
qed


lemma generate_Inr:
  assumes "driver_loop M tk clk args
             \<lparr>tokens = [], skip = 0, out = [''------'', prompt args],
              gen = Unstarted (bos_id tk # encode tk (prompt args)) rng,
              stats = stats0\<lparr>start_gen := clk 0,
                            num_tokens_prompt := int (length (encode tk (prompt args))),
                            start_gen := clk 1\<rparr>\<rparr> = Inr st'"
  shows "generate M tk clk rng args stats0 =
           Inr (st'\<lparr>out := out st' @ [drop (skip st') (decode tk (tokens st'))] @ [''------''],
                   stats := (stats st')\<lparr>end_gen := clk 3,
                                        num_tokens_response := int (length (tokens st'))\<rparr>\<rparr>)"
  using assms by (simp add: generate_def Let_def)

lemma generate_returns:
  assumes "write_every args \<noteq> 0 \<or> max_tokens args \<le> 1"
  shows "\<exists>st'. generate M tk clk rng args stats0 =
           Inr (st'\<lparr>out := out st' @ [drop (skip st') (decode tk (tokens st'))] @ [''------''],
                   stats := (stats st')\<lparr>end_gen := clk 3,
                                        num_tokens_response := int (length (tokens st'))\<rparr>\<rparr>) \<and>
           driver_loop M tk clk args
             \<lparr>tokens = [], skip = 0, out = [''------'', prompt args],
              gen = Unstarted (bos_id tk # encode tk (prompt args)) rng,
              stats = stats0\<lparr>start_gen := clk 0,
                            num_tokens_prompt := int (length (encode tk (prompt args))),
                            start_gen := clk 1\<rparr>\<rparr> = Inr st'"
proof -
  let ?st0 = "\<lparr>tokens = [], skip = 0, out = [''------'', prompt args],
              gen = Unstarted (bos_id tk # encode tk (prompt args)) rng,
              stats = stats0\<lparr>start_gen := clk 0,
                            num_tokens_prompt := int (length (encode tk (prompt args))),
                            start_gen := clk 1\<rparr>\<rparr>"
  have "write_every args \<noteq> 0 \<or> max_tokens args \<le> int (length (tokens ?st0)) + 1"
    using assms by simp
  from driver_loop_returns [OF this]
  obtain st' where "driver_loop M tk clk args ?st0 = Inr st'"
    by blast
  then show ?thesis
    by (intro exI [of _ st'] conjI generate_Inr)
qed

text \<open>
  Claim C7, amended. Let the codec be prefix-stable: the decoding of a token list is a
  prefix of the decoding of every extension of the list. Then every run of the driver's
  \<open>generate\<close> that does not raise (\<open>write_every\<close> is not 0, or \<open>max_tokens\<close> is at most 1)
  returns, and the concatenation of the suffixes it has printed is the decoding of the
  final token list.
\<close>

theorem incremental_detokenization:
  assumes "\<forall>ts us. prefix (decode tk ts) (decode tk (ts @ us))"
    and "write_every args \<noteq> 0 \<or> max_tokens args \<le> 1"
  shows "\<exists>st. generate M tk clk rng args stats0 = Inr st \<and>
           printed_text st = decode tk (tokens st)"
proof -
  from generate_returns [OF assms(2), where M = M and tk = tk and clk = clk and rng = rng
      and ?stats0.0 = stats0]
  obtain st' where g: "generate M tk clk rng args stats0 =
           Inr (st'\<lparr>out := out st' @ [drop (skip st') (decode tk (tokens st'))] @ [''------''],
                   stats := (stats st')\<lparr>end_gen := clk 3,
                                        num_tokens_response := int (length (tokens st'))\<rparr>\<rparr>)"
    and l: "driver_loop M tk clk args
             \<lparr>tokens = [], skip = 0, out = [''------'', prompt args],
              gen = Unstarted (bos_id tk # encode tk (prompt args)) rng,
              stats = stats0\<lparr>start_gen := clk 0,
                            num_tokens_prompt := int (length (encode tk (prompt args))),
                            start_gen := clk 1\<rparr>\<rparr> = Inr st'"
    by blast
  from driver_loop_out [OF assms(1) l, of "[''------'', prompt args]" "[]"]
  obtain ds where ds: "out st' = [''------'', prompt args] @ ds"
    "concat ds = take (skip st') (decode tk (tokens st'))"
    by auto
  show ?thesis
    unfolding g
    by (rule exI, rule conjI, rule refl) (simp add: printed_text_def ds butlast_append)
qed


lemma toy_decode_mono:
  "\<forall>ts us. prefix (decode toy_tokenizer ts) (decode toy_tokenizer (ts @ us))"
  by (simp add: toy_tokenizer_def)

text \<open>
  The toy codec is prefix-stable, and the theorem applies to a run with \<open>write_every = 2\<close>.
\<close>

theorem incremental_detokenization_witness:
  "\<exists>st. generate toy_model toy_tokenizer toy_clock (0::nat)
          \<lparr>prompt = ''abc'', max_tokens = 4, write_every = 2, temp = 0\<rparr> toy_stats = Inr st \<and>
        printed_text st = decode toy_tokenizer (tokens st)"
  using incremental_detokenization [OF toy_decode_mono, of
      "\<lparr>prompt = ''abc'', max_tokens = 4, write_every = 2, temp = 0\<rparr>" toy_model toy_clock
      "0::nat" toy_stats]
  by simp

text \<open>
  Claim C7 as stated fails for a codec that is not prefix-stable. With the byte-fallback
  codec, \<open>max_tokens = 2\<close> and \<open>write_every = 1\<close> the network yields the tokens 3 and 5. After
  the first token the driver prints the replacement mark and sets \<open>skip = 1\<close>; the final
  decoding is the single character \<open>e\<close>, of which \<open>s[1:]\<close> is empty. The printed text is
  \<open>?\<close>, the decoding of the final token list is \<open>e\<close>.
\<close>

theorem incremental_detokenization_counterexample:
  "\<exists>st. generate toy_model fallback_tokenizer toy_clock (0::nat)
          \<lparr>prompt = ''abc'', max_tokens = 2, write_every = 1, temp = 0\<rparr> toy_stats = Inr st \<and>
        printed_text st = ''?'' \<and> decode fallback_tokenizer (tokens st) = ''e''"
  by (simp add: generate_def driver_loop.simps next_token_def ingest_prompt_def decode_step_def
      sample_def decode_layers_def
      toy_model_def fallback_tokenizer_def toy_stats_def printed_text_def Let_def)

text \<open>
  Claim C10. When \<open>max_tokens\<close> is at most 1 (0 and negative values included), \<open>generate\<close>
  returns, for every \<open>write_every\<close>; it has taken exactly one token from the generation
  sequence, the one of the first \<open>next()\<close>, the generator is left as that call left it, and
  \<open>num_tokens_response\<close> is 1.
\<close>

theorem max_tokens_at_most_one:
  assumes "max_tokens args \<le> 1"
  shows "\<exists>st y g. generate M tk clk rng args stats0 = Inr st \<and>
           next_token M (temp args) (Unstarted (bos_id tk # encode tk (prompt args)) rng) = (y, g) \<and>
           tokens st = [y] \<and> gen st = g \<and> num_tokens_response (stats st) = 1"
proof -
  have w: "write_every args \<noteq> 0 \<or> max_tokens args \<le> 1"
    using assms by simp
  from generate_returns [OF w, where M = M and tk = tk and clk = clk and rng = rng
      and ?stats0.0 = stats0]
  obtain st' where g: "generate M tk clk rng args stats0 =
           Inr (st'\<lparr>out := out st' @ [drop (skip st') (decode tk (tokens st'))] @ [''------''],
                   stats := (stats st')\<lparr>end_gen := clk 3,
                                        num_tokens_response := int (length (tokens st'))\<rparr>\<rparr>)"
    and l: "driver_loop M tk clk args
             \<lparr>tokens = [], skip = 0, out = [''------'', prompt args],
              gen = Unstarted (bos_id tk # encode tk (prompt args)) rng,
              stats = stats0\<lparr>start_gen := clk 0,
                            num_tokens_prompt := int (length (encode tk (prompt args))),
                            start_gen := clk 1\<rparr>\<rparr> = Inr st'"
    by blast
  obtain y g' where nt:
    "next_token M (temp args) (Unstarted (bos_id tk # encode tk (prompt args)) rng) = (y, g')"
    by (cases "next_token M (temp args) (Unstarted (bos_id tk # encode tk (prompt args)) rng)")
  have n: "max 1 (nat (max_tokens args - int (length ([]::int list)))) = Suc 0"
    using assms by (simp add: max_def) linarith
  have "(tokens st', gen st') = ([y], g')"
    using driver_loop_tokens [OF l] nt unfolding driver.simps n by simp
  then show ?thesis
    unfolding g using nt by simp
qed

text \<open>
  The theorem at \<open>max_tokens = -3\<close>, with \<open>write_every = 0\<close>.
\<close>

theorem max_tokens_at_most_one_witness:
  "\<exists>st. generate toy_model toy_tokenizer toy_clock (0::nat)
          \<lparr>prompt = ''abc'', max_tokens = - 3, write_every = 0, temp = 0\<rparr> toy_stats = Inr st \<and>
        length (tokens st) = 1 \<and> num_tokens_response (stats st) = 1"
  using max_tokens_at_most_one [of
      "\<lparr>prompt = ''abc'', max_tokens = - 3, write_every = 0, temp = 0\<rparr>" toy_model toy_tokenizer
      toy_clock "0::nat" toy_stats]
  by auto


lemma ingest_prompt_greedy: "\<exists>y c. ingest_prompt M 0 x rng = (y, c, rng)"
  by (simp add: ingest_prompt_def sample_def Let_def split: prod.splits)

lemma decode_step_greedy: "\<exists>y' c'. decode_step M 0 c y rng = (y', c', rng)"
  by (simp add: decode_step_def sample_def Let_def split: prod.splits)

text \<open>
  Claim C4. For a prompt that encodes to \<open>[5, 9, 2]\<close>, beginning-of-sequence id 1,
  \<open>max_tokens = 4\<close>, temperature 0 and any \<open>write_every\<close> but 0 (the default is 1),
  \<open>generate\<close> returns with exactly four tokens: the first from prompt ingestion of the
  input \<open>[1, 5, 9, 2]\<close>, each of the other three from one decode step on the token before
  it and the caches of the step before. The generator is left suspended after the fourth
  token. The statistics hold \<open>num_tokens_prompt = 3\<close> and \<open>num_tokens_response = 4\<close>.
\<close>

theorem end_to_end_scenario:
  assumes enc: "encode tk (prompt args) = [5, 9, 2]" and bos: "bos_id tk = 1"
    and mt: "max_tokens args = 4" and t0: "temp args = 0" and we: "write_every args \<noteq> 0"
  shows "\<exists>st y1 c1 y2 c2 y3 c3 y4 c4.
           generate M tk clk rng args stats0 = Inr st \<and>
           ingest_prompt M 0 [1, 5, 9, 2] rng = (y1, c1, rng) \<and>
           decode_step M 0 c1 y1 rng = (y2, c2, rng) \<and>
           decode_step M 0 c2 y2 rng = (y3, c3, rng) \<and>
           decode_step M 0 c3 y3 rng = (y4, c4, rng) \<and>
           tokens st = [y1, y2, y3, y4] \<and> gen st = Suspended c4 y4 rng \<and>
           num_tokens_prompt (stats st) = 3 \<and> num_tokens_response (stats st) = 4"
proof -
  have w: "write_every args \<noteq> 0 \<or> max_tokens args \<le> 1"
    using we by simp
  from generate_returns [OF w, where M = M and tk = tk and clk = clk and rng = rng
      and ?stats0.0 = stats0]
  obtain st' where g: "generate M tk clk rng args stats0 =
           Inr (st'\<lparr>out := out st' @ [drop (skip st') (decode tk (tokens st'))] @ [''------''],
                   stats := (stats st')\<lparr>end_gen := clk 3,
                                        num_tokens_response := int (length (tokens st'))\<rparr>\<rparr>)"
    and l: "driver_loop M tk clk args
             \<lparr>tokens = [], skip = 0, out = [''------'', prompt args],
              gen = Unstarted (bos_id tk # encode tk (prompt args)) rng,
              stats = stats0\<lparr>start_gen := clk 0,
                            num_tokens_prompt := int (length (encode tk (prompt args))),
                            start_gen := clk 1\<rparr>\<rparr> = Inr st'"
    by blast
  obtain y1 c1 where s1: "ingest_prompt M 0 [1, 5, 9, 2] rng = (y1, c1, rng)"
    using ingest_prompt_greedy [of M "[1, 5, 9, 2]" rng] by blast
  obtain y2 c2 where s2: "decode_step M 0 c1 y1 rng = (y2, c2, rng)"
    using decode_step_greedy [of M c1 y1 rng] by blast
  obtain y3 c3 where s3: "decode_step M 0 c2 y2 rng = (y3, c3, rng)"
    using decode_step_greedy [of M c2 y2 rng] by blast
  obtain y4 c4 where s4: "decode_step M 0 c3 y3 rng = (y4, c4, rng)"
    using decode_step_greedy [of M c3 y3 rng] by blast
  have n: "max 1 (nat (max_tokens args - int (length ([]::int list)))) = Suc (Suc (Suc (Suc 0)))"
    by (simp add: mt)
  have tt: "take_tokens M 0 (Unstarted [1, 5, 9, 2] rng) (Suc (Suc (Suc (Suc 0)))) =
              ([y1, y2, y3, y4], Suspended c4 y4 rng)"
    by (simp add: next_token_def s1 s2 s3 s4)
  have tg: "tokens st' = [y1, y2, y3, y4]" "gen st' = Suspended c4 y4 rng"
    using driver_loop_tokens [OF l] unfolding driver.simps n t0 enc bos tt by simp_all
  have np: "num_tokens_prompt (stats st') = 3"
    using driver_loop_Inr [OF l] by (simp add: enc)
  show ?thesis
    unfolding g using s1 s2 s3 s4 tg np by simp
qed

text \<open>
  The scenario run on the toy network.
\<close>

theorem end_to_end_scenario_witness:
  "\<exists>st. generate toy_model toy_tokenizer toy_clock (0::nat)
          \<lparr>prompt = ''abc'', max_tokens = 4, write_every = 1, temp = 0\<rparr> toy_stats = Inr st \<and>
        length (tokens st) = 4 \<and>
        num_tokens_prompt (stats st) = 3 \<and> num_tokens_response (stats st) = 4"
  using end_to_end_scenario [of toy_tokenizer
      "\<lparr>prompt = ''abc'', max_tokens = 4, write_every = 1, temp = 0\<rparr>" toy_model toy_clock
      "0::nat" toy_stats]
  by (auto simp: toy_tokenizer_def)

lemma print_statistics_zero:
  "num_tokens_prompt s = 0 \<Longrightarrow> print_statistics s = Inl ZeroDivisionError"
  by (simp add: print_statistics_def py_truediv_def Let_def)

text \<open>
  Claim C5 fails on the code. When the prompt encodes to no tokens and the driver's
  \<open>generate\<close> returns, \<open>num_tokens_prompt\<close> is 0 and the statistics block divides by it:
  the script ends with \<open>ZeroDivisionError\<close>. Nothing guards the division.
\<close>

theorem empty_prompt_statistics:
  assumes enc: "encode tk (prompt args) = []"
    and w: "write_every args \<noteq> 0 \<or> max_tokens args \<le> 1"
  shows "\<exists>st. generate M tk clk rng args stats0 = Inr st \<and>
           num_tokens_prompt (stats st) = 0 \<and>
           print_statistics (stats st) = Inl ZeroDivisionError \<and>
           main M tk clk rng args stats0 = Inl ZeroDivisionError"
proof -
  from generate_returns [OF w, where M = M and tk = tk and clk = clk and rng = rng
      and ?stats0.0 = stats0]
  obtain st' where g: "generate M tk clk rng args stats0 =
           Inr (st'\<lparr>out := out st' @ [drop (skip st') (decode tk (tokens st'))] @ [''------''],
                   stats := (stats st')\<lparr>end_gen := clk 3,
                                        num_tokens_response := int (length (tokens st'))\<rparr>\<rparr>)"
    and l: "driver_loop M tk clk args
             \<lparr>tokens = [], skip = 0, out = [''------'', prompt args],
              gen = Unstarted (bos_id tk # encode tk (prompt args)) rng,
              stats = stats0\<lparr>start_gen := clk 0,
                            num_tokens_prompt := int (length (encode tk (prompt args))),
                            start_gen := clk 1\<rparr>\<rparr> = Inr st'"
    by blast
  have np: "num_tokens_prompt (stats st') = 0"
    using driver_loop_Inr [OF l] by (simp add: enc)
  show ?thesis
    unfolding main_def g using np by (simp add: print_statistics_zero)
qed

text \<open>
  The script on the empty prompt with the default \<open>write_every = 1\<close>.
\<close>

theorem empty_prompt_statistics_witness:
  "main toy_model toy_tokenizer toy_clock (0::nat)
     \<lparr>prompt = [], max_tokens = 100, write_every = 1, temp = 0\<rparr> toy_stats
   = Inl ZeroDivisionError"
  using empty_prompt_statistics [of toy_tokenizer
      "\<lparr>prompt = [], max_tokens = 100, write_every = 1, temp = 0\<rparr>" toy_model toy_clock
      "0::nat" toy_stats]
  by (auto simp: toy_tokenizer_def)

section \<open>Properties of the cache shapes\<close>

lemma Linear_last: "Linear d o' (xs @ [d]) = Some (xs @ [o'])"
  by (simp add: Linear_def)

lemma Linear3 [simp]: "Linear d o' [B, L, d] = Some [B, L, o']"
  using Linear_last [of d o' "[B, L]"] by simp

lemma Linear2 [simp]: "Linear d o' [B, d] = Some [B, o']"
  using Linear_last [of d o' "[B]"] by simp

lemma reshape_split_heads:
  assumes "0 < B" "0 < L" "0 < h"
  shows "reshape [B, L, h * d] [Some B, Some L, Some h, None] = Some [B, L, h, d]"
  using assms by (simp add: reshape_def Let_def mult.assoc [symmetric])

lemma transpose_0213 [simp]:
  "transpose_axes [a, b, c, d] [0, 2, Suc 0, 3] = Some [a, c, b, d]"
  by (simp add: transpose_axes_def upt_rec)

lemma transpose_0132 [simp]:
  "transpose_axes [a, b, c, d] [0, Suc 0, 3, 2] = Some [a, b, d, c]"
  by (simp add: transpose_axes_def upt_rec)

lemma concatenate_replicate:
  assumes "0 < r" "ax < length e"
  shows "concatenate (replicate r e) ax = Some (e[ax := r * (e ! ax)])"
proof -
  obtain r' where r: "r = Suc r'"
    using assms(1) by (cases r) simp_all
  show ?thesis
    using assms(2) by (simp add: r concatenate_def list_all_iff sum_list_replicate)
qed

lemma repeat_heads_shape:
  assumes "0 < B" "0 < L" "0 < r" "0 < kv"
  shows "repeat_heads r (r * kv) B L [B, kv, L, d] = Some [B, r * kv, L, d]"
proof -
  have c: "concatenate (replicate r [B, kv, Suc 0, L, d]) 2 = Some [B, kv, r, L, d]"
    using concatenate_replicate [of r 2 "[B, kv, Suc 0, L, d]"] assms(3) by simp
  have p: "B * (kv * (r * (L * d))) = (B * (r * kv * L)) * d"
    by (simp add: algebra_simps)
  have "reshape [B, kv, r, L, d] [Some B, Some (r * kv), Some L, None] = Some [B, r * kv, L, d]"
    using assms unfolding reshape_def Let_def by (simp add: p del: mult.assoc)
  then show ?thesis
    by (simp add: repeat_heads_def expand_dims_def c)
qed


lemma RoPE_shape:
  assumes "0 < L" "0 < d" "even d"
  shows "RoPE d trad [B, h, L, d] off = Some [B, h, L, d]"
proof -
  have p: "B * (h * (L * d)) = (B * h) * (L * d)"
    by simp
  have r1: "reshape [B, h, L, d] [None, Some L, Some d] = Some [B * h, L, d]"
    using assms unfolding reshape_def Let_def by (simp add: p del: mult.assoc)
  have r2: "rope_rotate d trad [B * h, L, d] =
              Some (if trad then [B * h, L, d div 2, 2] else [B * h, L, d])"
    using assms by (simp add: rope_rotate_def)
  have d2: "d div 2 * 2 = d"
    using assms(3) by simp
  have r3: "reshape (if trad then [B * h, L, d div 2, 2] else [B * h, L, d])
              [Some B, Some h, Some L, Some d] = Some [B, h, L, d]"
    unfolding reshape_def Let_def by (simp add: d2)
  show ?thesis
    by (simp add: RoPE_def r1 r2 r3)
qed

lemma concatenate_cache:
  "concatenate [[B, h, T, d], [B, h, L, d]] 2 = Some [B, h, T + L, d]"
  by (simp add: concatenate_def)

lemma broadcast_same2 [simp]: "broadcast_shapes [B, h] [B, h] = Some [B, h]"
  by (simp add: broadcast_shapes_def)

lemma matmul_scores: "matmul [B, h, L, d] [B, h, d, T] = Some [B, h, L, T]"
  by (simp add: matmul_def)

lemma broadcast_mask: "broadcast_shapes [B, h, L, L] [L, L] = Some [B, h, L, L]"
  by (simp add: broadcast_shapes_def)

lemma reshape_merge_heads:
  assumes "0 < B" "0 < L"
  shows "reshape [B, L, h, d] [Some B, Some L, None] = Some [B, L, h * d]"
  using assms unfolding reshape_def Let_def by (simp add: mult.assoc [symmetric])

lemma broadcast_same3 [simp]: "broadcast_shapes [B, L, d] [B, L, d] = Some [B, L, d]"
  by (simp add: broadcast_shapes_def)

lemma RMSNorm3 [simp]: "RMSNorm d [B, L, d] = Some [B, L, d]"
  by (simp add: RMSNorm_def broadcast_shapes_def)

lemma FeedForward3 [simp]: "FeedForward args [B, L, dim args] = Some [B, L, dim args]"
  by (simp add: FeedForward_def)


lemma repeat_heads_args:
  assumes "well_formed args" "0 < B" "0 < L"
  shows "repeat_heads (n_heads args div n_kv_heads args) (n_heads args) B L
           [B, n_kv_heads args, L, d] = Some [B, n_heads args, L, d]"
proof -
  define r where "r = n_heads args div n_kv_heads args"
  have "n_kv_heads args dvd n_heads args"
    using assms(1) by (simp add: well_formed_def mod_eq_0_iff_dvd)
  then have nh: "n_heads args = r * n_kv_heads args"
    by (simp add: r_def)
  have "0 < r"
    using assms(1) nh by (cases r) (simp_all add: well_formed_def)
  moreover have "0 < n_kv_heads args"
    using assms(1) by (simp add: well_formed_def)
  ultimately have "repeat_heads r (r * n_kv_heads args) B L [B, n_kv_heads args, L, d] =
      Some [B, r * n_kv_heads args, L, d]"
    using assms(2,3) by (intro repeat_heads_shape)
  then show ?thesis
    unfolding r_def [symmetric] nh [symmetric] .
qed

lemma Attention_prompt:
  assumes wf: "well_formed args" and B: "0 < B" and L: "0 < L"
  shows "Attention args [B, L, dim args] (Some [L, L]) None =
           Some ([B, L, dim args],
                 ([B, n_heads args, L, head_dim args], [B, n_heads args, L, head_dim args]))"
proof -
  have kv: "n_kv_heads args \<noteq> 0" "0 < n_kv_heads args" "0 < n_heads args"
    "0 < head_dim args" "even (head_dim args)"
    using wf by (simp_all add: well_formed_def)
  show ?thesis
    unfolding Attention_def Attention_init_def
    by (simp add: kv B L reshape_split_heads repeat_heads_args [OF wf B L] RoPE_shape
        matmul_scores broadcast_mask reshape_merge_heads)
qed

lemma Attention_cached:
  assumes wf: "well_formed args" and B: "0 < B" and L: "0 < L"
  shows "Attention args [B, L, dim args] None
           (Some ([B, n_heads args, T, head_dim args], [B, n_heads args, T, head_dim args])) =
           Some ([B, L, dim args],
                 ([B, n_heads args, T + L, head_dim args],
                  [B, n_heads args, T + L, head_dim args]))"
proof -
  have kv: "n_kv_heads args \<noteq> 0" "0 < n_kv_heads args" "0 < n_heads args"
    "0 < head_dim args" "even (head_dim args)"
    using wf by (simp_all add: well_formed_def)
  show ?thesis
    unfolding Attention_def Attention_init_def
    by (simp add: kv B L reshape_split_heads repeat_heads_args [OF wf B L] RoPE_shape
        concatenate_cache matmul_scores reshape_merge_heads)
qed

lemma TransformerBlock_prompt:
  assumes "well_formed args" "0 < B" "0 < L"
  shows "TransformerBlock args [B, L, dim args] (Some [L, L]) None =
           Some ([B, L, dim args],
                 ([B, n_heads args, L, head_dim args], [B, n_heads args, L, head_dim args]))"
  by (simp add: TransformerBlock_def Attention_prompt [OF assms])

lemma TransformerBlock_cached:
  assumes "well_formed args" "0 < B" "0 < L"
  shows "TransformerBlock args [B, L, dim args] None
           (Some ([B, n_heads args, T, head_dim args], [B, n_heads args, T, head_dim args])) =
           Some ([B, L, dim args],
                 ([B, n_heads args, T + L, head_dim args],
                  [B, n_heads args, T + L, head_dim args]))"
  by (simp add: TransformerBlock_def Attention_cached [OF assms])


lemma prompt_blocks_shape:
  assumes "well_formed args" "0 < B" "0 < L"
  shows "prompt_blocks args n [B, L, dim args] [L, L] cache =
           Some ([B, L, dim args],
                 cache @ replicate n ([B, n_heads args, L, head_dim args],
                                      [B, n_heads args, L, head_dim args]))"
  by (induction n arbitrary: cache)
    (simp_all add: TransformerBlock_prompt [OF assms] replicate_app_Cons_same)

lemma decode_blocks_shape:
  assumes "well_formed args" "0 < B"
  shows "decode_blocks args [B, 1, dim args]
           (replicate n ([B, n_heads args, T, head_dim args],
                         [B, n_heads args, T, head_dim args])) =
           Some ([B, 1, dim args],
                 replicate n ([B, n_heads args, T + 1, head_dim args],
                              [B, n_heads args, T + 1, head_dim args]))"
  using TransformerBlock_cached [OF assms, of 1 T] by (induction n) simp_all

lemma next_token_shape_last:
  assumes "0 < L"
  shows "next_token_shape args [B, L, dim args] = Some [B]"
  using assms by (simp add: next_token_shape_def last_position_def sample_shape_def)

lemma prompt_shapes_eq:
  assumes "well_formed args" "0 < B" "0 < L"
  shows "prompt_shapes args [B, L] =
           Some ([B], replicate (n_layers args)
                        ([B, n_heads args, L, head_dim args],
                         [B, n_heads args, L, head_dim args]))"
  by (simp add: prompt_shapes_def Embedding_def prompt_blocks_shape [OF assms]
      next_token_shape_last [OF assms(3)])

lemma step_shapes_eq:
  assumes "well_formed args" "0 < B"
  shows "step_shapes args
           ([B], replicate n ([B, n_heads args, T, head_dim args],
                              [B, n_heads args, T, head_dim args])) =
           Some ([B], replicate n ([B, n_heads args, T + 1, head_dim args],
                                   [B, n_heads args, T + 1, head_dim args]))"
  using decode_blocks_shape [OF assms, of n T] next_token_shape_last [of 1 args B]
  by (simp add: step_shapes_def Embedding_def)

lemma generate_shapes_eq:
  assumes "well_formed args" "0 < B" "0 < L"
  shows "generate_shapes args [B, L] k =
           Some ([B], replicate (n_layers args)
                        ([B, n_heads args, L + k, head_dim args],
                         [B, n_heads args, L + k, head_dim args]))"
proof (induction k)
  case 0
  show ?case
    by (simp add: prompt_shapes_eq [OF assms])
next
  case (Suc k)
  show ?case
    using step_shapes_eq [OF assms(1,2), of "n_layers args" "L + k"] by (simp add: Suc)
qed

lemma gqa_args_well_formed: "well_formed gqa_args"
  by (simp add: well_formed_def gqa_args_def)

text \<open>
  Claim C8. For a well-formed configuration and an id array of shape \<open>[B, L]\<close> with a
  positive batch and a non-empty prompt, generation reaches every step: after prompt
  ingestion and \<open>k\<close> decode steps the cache list has one entry per layer, and in every entry
  the keys and the values have extent \<open>L + k\<close> on axis 2. At \<open>k = 0\<close> that is \<open>L\<close>, and each
  decode step adds one.
\<close>

theorem cache_growth:
  assumes "well_formed args" "0 < B" "0 < L"
  shows "\<exists>y cache. generate_shapes args [B, L] k = Some (y, cache) \<and>
           length cache = n_layers args \<and>
           list_all (\<lambda>(keys, values). keys ! 2 = L + k \<and> values ! 2 = L + k) cache"
  unfolding generate_shapes_eq [OF assms] by (simp add: list_all_iff)

text \<open>The theorem on the grouped-query configuration, a prompt of 4 and 3 decode steps.\<close>

theorem cache_growth_witness:
  "\<exists>y cache. generate_shapes gqa_args [1, 4] 3 = Some (y, cache) \<and>
      length cache = 2 \<and>
      list_all (\<lambda>(keys, values). keys ! 2 = 7 \<and> values ! 2 = 7) cache"
  using cache_growth [OF gqa_args_well_formed, of 1 4 3] by (simp add: gqa_args_def)

text \<open>
  Claim C2, amended. Under the same conditions every cache entry, at every generation
  step, has keys and values of shape \<open>[B, n_heads, L + k, head_dim]\<close>: the second axis is
  the number of query heads, since \<open>Attention\<close> repeats the key/value heads before it
  concatenates with the cache and returns the pair.
\<close>

theorem cache_entry_shape:
  assumes "well_formed args" "0 < B" "0 < L"
  shows "\<exists>y cache. generate_shapes args [B, L] k = Some (y, cache) \<and>
           list_all (\<lambda>(keys, values).
                       keys = [B, n_heads args, L + k, head_dim args] \<and>
                       values = [B, n_heads args, L + k, head_dim args]) cache"
  unfolding generate_shapes_eq [OF assms] by (simp add: list_all_iff)

text \<open>The amended statement on the grouped-query configuration.\<close>

theorem cache_entry_shape_witness:
  "\<exists>y cache. generate_shapes gqa_args [1, 4] 3 = Some (y, cache) \<and>
      list_all (\<lambda>(keys, values). keys = [1, 4, 7, 2] \<and> values = [1, 4, 7, 2]) cache"
  using cache_entry_shape [OF gqa_args_well_formed, of 1 4 3] by (simp add: gqa_args_def)

text \<open>
  Claim C2 as stated fails when \<open>n_kv_heads < n_heads\<close>: with four query heads on two
  key/value heads, both cache entries after prompt ingestion have extent 4 on the second
  axis, not 2.
\<close>

theorem cache_entry_shape_counterexample:
  "n_kv_heads gqa_args < n_heads gqa_args \<and>
   (\<exists>y cache. generate_shapes gqa_args [1, 4] 0 = Some (y, cache) \<and> length cache = 2 \<and>
      list_all (\<lambda>(keys, values). keys ! 1 = 4 \<and> values ! 1 = 4 \<and>
                                  keys ! 1 \<noteq> n_kv_heads gqa_args \<and>
                                  values ! 1 \<noteq> n_kv_heads gqa_args) cache)"
proof -
  have "generate_shapes gqa_args [1, 4] 0 =
          Some ([1], replicate (n_layers gqa_args)
                       ([1, n_heads gqa_args, 4 + 0, head_dim gqa_args],
                        [1, n_heads gqa_args, 4 + 0, head_dim gqa_args]))"
    by (rule generate_shapes_eq [OF gqa_args_well_formed]) simp_all
  then show ?thesis
    by (simp add: gqa_args_def list_all_iff del: generate_shapes.simps)
qed

end
